theory Spec2Isabelle
  imports Complex_Main "HOL-Library.Word"
begin

section \<open>Values of the C type float\<close>

text \<open>
  The driver computes in C \<open>float\<close>. A value is modelled as a finite rational number,
  one of the two infinities, or NaN. Arithmetic on finite values is exact and there is
  one zero: the rounding and the overflow of binary32 and the sign of zero are not
  modelled. A result of the model is, up to the sign of a zero, the result of the code
  when every finite value that occurs is a binary32 value (an integer of magnitude at most \<open>2 ^ 24\<close> is one)
  and no divisor that is zero comes from a product with a negative factor. The
  statements below whose results depend on exact arithmetic carry hypotheses that keep
  the data in that range. The special values follow IEEE 754: a nonzero finite value
  divided by zero is an infinity, \<open>0 / 0\<close>, \<open>0 * inf\<close> and \<open>inf - inf\<close> are NaN, NaN
  propagates through every operation, and every comparison with NaN is false. No
  operation traps.
\<close>

datatype cfloat = Fin rat | PInf | NInf | NaN

text \<open>The infinity carrying the sign of \<open>s\<close>; NaN when \<open>s\<close> is zero.\<close>

definition inf_signed :: "rat \<Rightarrow> cfloat" where
  "inf_signed s = (if s = 0 then NaN else if 0 < s then PInf else NInf)"

fun fneg :: "cfloat \<Rightarrow> cfloat" where
  "fneg (Fin a) = Fin (- a)"
| "fneg PInf = NInf"
| "fneg NInf = PInf"
| "fneg NaN = NaN"

fun fadd :: "cfloat \<Rightarrow> cfloat \<Rightarrow> cfloat" where
  "fadd (Fin a) (Fin b) = Fin (a + b)"
| "fadd (Fin a) PInf = PInf"
| "fadd (Fin a) NInf = NInf"
| "fadd PInf (Fin b) = PInf"
| "fadd NInf (Fin b) = NInf"
| "fadd PInf PInf = PInf"
| "fadd NInf NInf = NInf"
| "fadd PInf NInf = NaN"
| "fadd NInf PInf = NaN"
| "fadd NaN b = NaN"
| "fadd a NaN = NaN"

definition fsub :: "cfloat \<Rightarrow> cfloat \<Rightarrow> cfloat" where
  "fsub a b = fadd a (fneg b)"

fun fmul :: "cfloat \<Rightarrow> cfloat \<Rightarrow> cfloat" where
  "fmul (Fin a) (Fin b) = Fin (a * b)"
| "fmul (Fin a) PInf = inf_signed a"
| "fmul (Fin a) NInf = inf_signed (- a)"
| "fmul PInf (Fin b) = inf_signed b"
| "fmul NInf (Fin b) = inf_signed (- b)"
| "fmul PInf PInf = PInf"
| "fmul NInf NInf = PInf"
| "fmul PInf NInf = NInf"
| "fmul NInf PInf = NInf"
| "fmul NaN b = NaN"
| "fmul a NaN = NaN"

fun fdiv :: "cfloat \<Rightarrow> cfloat \<Rightarrow> cfloat" where
  "fdiv (Fin a) (Fin b) = (if b = 0 then inf_signed a else Fin (a / b))"
| "fdiv (Fin a) PInf = Fin 0"
| "fdiv (Fin a) NInf = Fin 0"
| "fdiv PInf (Fin b) = (if b < 0 then NInf else PInf)"
| "fdiv NInf (Fin b) = (if b < 0 then PInf else NInf)"
| "fdiv PInf PInf = NaN"
| "fdiv NInf NInf = NaN"
| "fdiv PInf NInf = NaN"
| "fdiv NInf PInf = NaN"
| "fdiv NaN b = NaN"
| "fdiv a NaN = NaN"

text \<open>The C comparison \<open>a > b\<close>.\<close>

fun fgt :: "cfloat \<Rightarrow> cfloat \<Rightarrow> bool" where
  "fgt (Fin a) (Fin b) = (b < a)"
| "fgt PInf (Fin b) = True"
| "fgt PInf NInf = True"
| "fgt (Fin a) NInf = True"
| "fgt NaN b = False"
| "fgt a NaN = False"
| "fgt a PInf = False"
| "fgt NInf b = False"

text \<open>The implicit conversions of \<open>uint8_t\<close> and \<open>uint16_t\<close> operands to float.\<close>

definition float_of_u8 :: "8 word \<Rightarrow> cfloat" where
  "float_of_u8 w = Fin (of_nat (unat w))"

definition float_of_u16 :: "16 word \<Rightarrow> cfloat" where
  "float_of_u16 w = Fin (of_nat (unat w))"

section \<open>The driver state\<close>

text \<open>The struct \<open>StrainGauge\<close> of strain_gauge.h.\<close>

record StrainGauge =
  capacity :: "16 word"
  VE :: cfloat
  RO :: cfloat
  offset :: cfloat

text \<open>
  The file-scope variables of strain_gauge.c: the instance \<open>sg\<close>, the two mode flags
  and the coefficients of the line of best fit.
\<close>

record driver =
  sg :: StrainGauge
  taring :: bool
  calibrating :: bool
  slope :: cfloat
  intercept :: cfloat

text \<open>
  The state at program start: the flags and the coefficients have their initialisers,
  \<open>sg\<close> is zero-initialised as every C object of static storage duration.
\<close>

definition startup :: driver where
  "startup = \<lparr>sg = \<lparr>capacity = 0, VE = Fin 0, RO = Fin 0, offset = Fin 0\<rparr>,
     taring = False, calibrating = False, slope = Fin 0, intercept = Fin 0\<rparr>"

section \<open>Initialisation, reading and the coefficients\<close>

definition strain_gauge_init :: "driver \<Rightarrow> cfloat \<Rightarrow> 16 word \<Rightarrow> cfloat \<Rightarrow> driver" where
  "strain_gauge_init d ve cap ro =
     d\<lparr>sg := \<lparr>capacity = cap, VE = ve, RO = ro, offset = Fin 0\<rparr>\<rparr>"

text \<open>
  The first assignment of \<open>read_kgs\<close>: the measured voltage scaled by
  \<open>capacity / (VE * RO)\<close>. This is the value \<open>read_kgs\<close> returns while calibrating.
\<close>

definition raw_kilograms :: "StrainGauge \<Rightarrow> cfloat \<Rightarrow> cfloat" where
  "raw_kilograms g sense_voltage =
     fmul sense_voltage (fdiv (float_of_u16 (capacity g)) (fmul (VE g) (RO g)))"

text \<open>
  \<open>read_kgs\<close>. The voltage returned by \<open>adc_read_voltage\<close> (a function of the ADC
  driver, outside this repository) is the second argument.
\<close>

definition read_kgs :: "driver \<Rightarrow> cfloat \<Rightarrow> cfloat" where
  "read_kgs d sense_voltage =
     (let kilograms = raw_kilograms (sg d) sense_voltage in
      if calibrating d then kilograms
      else
        let kilograms =
              (if fgt kilograms (Fin 0)
               then fadd (fmul (slope d) kilograms) (intercept d)
               else fsub (fmul (slope d) kilograms) (intercept d))
        in if taring d then kilograms
           else if fgt (offset (sg d)) (Fin 0)
                then fsub kilograms (offset (sg d))
                else fadd kilograms (offset (sg d)))"

definition strain_gauge_set_equation :: "driver \<Rightarrow> cfloat \<Rightarrow> cfloat \<Rightarrow> driver" where
  "strain_gauge_set_equation d m b = d\<lparr>slope := m, intercept := b\<rparr>"

section \<open>Averaging and taring\<close>

text \<open>
  \<open>read_average\<close> waits for the flag \<open>read_sg\<close>, which a timer interrupt outside this
  file sets, before every sample. The environment is the list of the voltages the ADC
  holds at the successive timer ticks: waiting takes the next tick, and when no tick
  is left the wait loop \<open>while(!read_sg) {}\<close> never ends, which is the result \<open>None\<close>.
  The loop counter \<open>i\<close> is a \<open>uint8_t\<close>, as in the source; the source's \<open>times\<close> and
  \<open>sum\<close> are written \<open>times'\<close> and \<open>sum_kgs\<close>.
\<close>

function read_average_loop ::
  "driver \<Rightarrow> 8 word \<Rightarrow> 8 word \<Rightarrow> cfloat \<Rightarrow> cfloat list \<Rightarrow> (cfloat \<times> cfloat list) option" where
  "read_average_loop d times' i sum_kgs ticks =
     (if i < times' then
        (case ticks of
           [] \<Rightarrow> None
         | v # rest \<Rightarrow> read_average_loop d times' (i + 1) (fadd sum_kgs (read_kgs d v)) rest)
      else Some (sum_kgs, ticks))"
  by pat_completeness auto
termination
  by (relation "measure (\<lambda>(d, times', i, sum_kgs, ticks). length ticks)") auto

declare read_average_loop.simps [simp del]

definition read_average :: "driver \<Rightarrow> 8 word \<Rightarrow> cfloat list \<Rightarrow> (cfloat \<times> cfloat list) option" where
  "read_average d times' ticks =
     (case read_average_loop d times' 0 (Fin 0) ticks of
        None \<Rightarrow> None
      | Some (sum_kgs, rest) \<Rightarrow> Some (fdiv sum_kgs (float_of_u8 times'), rest))"

definition strain_gauge_tare :: "driver \<Rightarrow> cfloat list \<Rightarrow> (driver \<times> cfloat list) option" where
  "strain_gauge_tare d ticks =
     (let d1 = d\<lparr>taring := True\<rparr> in
      case read_average d1 15 ticks of
        None \<Rightarrow> None
      | Some (tare_weight, rest) \<Rightarrow>
          Some (d1\<lparr>sg := (sg d1)\<lparr>offset := tare_weight\<rparr>, taring := False\<rparr>, rest))"

section \<open>The line of best fit\<close>

text \<open>
  C does not check array indices; an access outside the array is undefined behaviour.
  The model checks every index and stops at the first access outside its array with the
  name of the array and the index.
\<close>

datatype fault = OutOfBounds string nat

text \<open>
  The summation loop of \<open>strain_gauge_calculate_equation\<close>. The accumulators are
  \<open>sumX\<close>, \<open>sumX2\<close>, \<open>sumY\<close> and \<open>sumXY\<close>, in this order.
\<close>

function calculate_sums ::
  "8 word \<Rightarrow> 8 word \<Rightarrow> cfloat list \<Rightarrow> cfloat list \<Rightarrow> cfloat \<times> cfloat \<times> cfloat \<times> cfloat
     \<Rightarrow> fault + (cfloat \<times> cfloat \<times> cfloat \<times> cfloat)" where
  "calculate_sums n i x y (sumX, sumX2, sumY, sumXY) =
     (if i < n then
        (if \<not> unat i < length x then Inl (OutOfBounds ''x'' (unat i))
         else if \<not> unat i < length y then Inl (OutOfBounds ''y'' (unat i))
         else calculate_sums n (i + 1) x y
                (fadd sumX (x ! unat i),
                 fadd sumX2 (fmul (x ! unat i) (x ! unat i)),
                 fadd sumY (y ! unat i),
                 fadd sumXY (fmul (x ! unat i) (y ! unat i))))
      else Inr (sumX, sumX2, sumY, sumXY))"
  by pat_completeness auto
termination
proof (relation "measure (\<lambda>(n, i, x, y, s). unat n - unat i)")
  show "wf (measure (\<lambda>(n, i, x, y, s). unat n - unat i))"
    by simp
next
  fix n i :: "8 word" and x y :: "cfloat list" and sumX sumX2 sumY sumXY :: cfloat
  assume less: "i < n"
  have below: "unat i < unat n"
    using less by (simp add: word_less_nat_alt)
  moreover have "unat n < 256"
    using unsigned_less [of n] by simp
  ultimately have "unat i + 1 < 256"
    by simp
  then have "unat (i + 1) = Suc (unat i)"
    by (simp add: unat_word_ariths)
  with below show "((n, i + 1, x, y,
       fadd sumX (x ! unat i), fadd sumX2 (fmul (x ! unat i) (x ! unat i)),
       fadd sumY (y ! unat i), fadd sumXY (fmul (x ! unat i) (y ! unat i))),
      (n, i, x, y, sumX, sumX2, sumY, sumXY))
     \<in> measure (\<lambda>(n, i, x, y, s). unat n - unat i)"
    by simp
qed

declare calculate_sums.simps [simp del]

text \<open>
  \<open>strain_gauge_calculate_equation\<close>. The two stores \<open>equation[0] = m\<close> and
  \<open>equation[1] = b\<close> are the returned pair.
\<close>

definition strain_gauge_calculate_equation ::
  "8 word \<Rightarrow> cfloat list \<Rightarrow> cfloat list \<Rightarrow> fault + (cfloat \<times> cfloat)" where
  "strain_gauge_calculate_equation weight_cnt x y =
     (let n = weight_cnt + 1 in
      case calculate_sums n 0 x y (Fin 0, Fin 0, Fin 0, Fin 0) of
        Inl e \<Rightarrow> Inl e
      | Inr (sumX, sumX2, sumY, sumXY) \<Rightarrow>
          let m = fdiv (fsub (fmul (float_of_u8 n) sumXY) (fmul sumX sumY))
                       (fsub (fmul (float_of_u8 n) sumX2) (fmul sumX sumX));
              b = fdiv (fsub sumY (fmul m sumX)) (float_of_u8 n)
          in Inr (m, b))"

section \<open>Calibration\<close>

text \<open>
  The loop of \<open>strain_gauge_calibrate\<close> that copies \<open>known_weights\<close> into \<open>y\<close>:
  \<open>for(i = 0; i <= weight_cnt; i++) y[i+1] = known_weights[i];\<close>. The counter is a
  \<open>uint8_t\<close> and wraps from 255 to 0, so with \<open>weight_cnt = 255\<close> the condition never
  fails; a run that does not end is \<open>None\<close>. The index \<open>i+1\<close> is computed in \<open>int\<close>
  and does not wrap. The right-hand side is read before the store.
\<close>

partial_function (option) copy_known_weights ::
  "8 word \<Rightarrow> 8 word \<Rightarrow> cfloat list \<Rightarrow> cfloat list \<Rightarrow> (fault + cfloat list) option" where
  "copy_known_weights weight_cnt i known_weights y =
     (if i \<le> weight_cnt then
        (if \<not> unat i < length known_weights
         then Some (Inl (OutOfBounds ''known_weights'' (unat i)))
         else if \<not> unat i + 1 < length y
         then Some (Inl (OutOfBounds ''y'' (unat i + 1)))
         else copy_known_weights weight_cnt (i + 1) known_weights
                (y[unat i + 1 := known_weights ! unat i]))
      else Some (Inr y))"

declare copy_known_weights.simps [code]

text \<open>
  The loop that measures one average per known weight:
  \<open>for(i = 1; i <= weight_cnt; i++) { delay_ms(15000); x[i] = read_average(20); }\<close>.
  The delay changes no variable and is left out.
\<close>

partial_function (option) measure_known_weights ::
  "driver \<Rightarrow> 8 word \<Rightarrow> 8 word \<Rightarrow> cfloat list \<Rightarrow> cfloat list
     \<Rightarrow> ((fault + cfloat list) \<times> cfloat list) option" where
  "measure_known_weights d weight_cnt i x ticks =
     (if i \<le> weight_cnt then
        (case read_average d 20 ticks of
           None \<Rightarrow> None
         | Some (kilograms, rest) \<Rightarrow>
             if \<not> unat i < length x then Some (Inl (OutOfBounds ''x'' (unat i)), rest)
             else measure_known_weights d weight_cnt (i + 1) (x[unat i := kilograms]) rest)
      else Some (Inr x, ticks))"

declare measure_known_weights.simps [code]

text \<open>
  \<open>strain_gauge_calibrate\<close>. The local arrays \<open>x\<close> and \<open>y\<close> have \<open>weight_cnt+1\<close>
  elements (computed in \<open>int\<close>, so 1 to 256); a cell that has not been stored to holds
  NaN here. The argument passed on for the count, \<open>weight_cnt+1\<close>, is converted to the
  \<open>uint8_t\<close> parameter of \<open>strain_gauge_calculate_equation\<close>. The result holds the
  driver state at the end of the run, the fault or the equation, and the ticks left.
\<close>

definition strain_gauge_calibrate ::
  "driver \<Rightarrow> 8 word \<Rightarrow> cfloat list \<Rightarrow> cfloat list
     \<Rightarrow> (driver \<times> (fault + (cfloat \<times> cfloat)) \<times> cfloat list) option" where
  "strain_gauge_calibrate d weight_cnt known_weights ticks =
     (let d1 = d\<lparr>calibrating := True\<rparr>;
          x = replicate (unat weight_cnt + 1) NaN;
          y = (replicate (unat weight_cnt + 1) NaN)[0 := Fin 0]
      in case copy_known_weights weight_cnt 0 known_weights y of
           None \<Rightarrow> None
         | Some (Inl e) \<Rightarrow> Some (d1, Inl e, ticks)
         | Some (Inr y1) \<Rightarrow>
             (case read_average d1 20 ticks of
                None \<Rightarrow> None
              | Some (kilograms, ticks1) \<Rightarrow>
                  (case measure_known_weights d1 weight_cnt 1 (x[0 := kilograms]) ticks1 of
                     None \<Rightarrow> None
                   | Some (Inl e, ticks2) \<Rightarrow> Some (d1, Inl e, ticks2)
                   | Some (Inr x1, ticks2) \<Rightarrow>
                       Some (d1, strain_gauge_calculate_equation (weight_cnt + 1) x1 y1,
                             ticks2))))"

section \<open>The fit as the specification words it\<close>

text \<open>
  Section 4.3 of the specification, for a list of points \<open>(x, y)\<close>: the four sums over
  the points, \<open>slope = (n*sumXY - sumX*sumY) / (n*sumX2 - sumX*sumX)\<close> and
  \<open>intercept = (sumY - slope*sumX) / n\<close>, with \<open>n\<close> the number of points. This
  definition follows the specification, not the source. The sums start at 0 and take
  the points in order, and every operation is the float operation.
\<close>

definition spec_fit :: "(cfloat \<times> cfloat) list \<Rightarrow> cfloat \<times> cfloat" where
  "spec_fit pts =
     (let n = Fin (of_nat (length pts));
          sumX = foldl fadd (Fin 0) (map fst pts);
          sumY = foldl fadd (Fin 0) (map snd pts);
          sumXY = foldl fadd (Fin 0) (map (\<lambda>(x, y). fmul x y) pts);
          sumX2 = foldl fadd (Fin 0) (map (\<lambda>(x, y). fmul x x) pts);
          slope = fdiv (fsub (fmul n sumXY) (fmul sumX sumY))
                       (fsub (fmul n sumX2) (fmul sumX sumX));
          intercept = fdiv (fsub sumY (fmul slope sumX)) n
      in (slope, intercept))"

section \<open>Arithmetic facts\<close>

lemma fmul_one_left: "fmul (Fin 1) a = a"
  by (cases a) (simp_all add: inf_signed_def)

lemma fadd_zero_right: "fadd a (Fin 0) = a"
  by (cases a) simp_all

lemma fsub_zero_right: "fsub a (Fin 0) = a"
  by (cases a) (simp_all add: fsub_def)

lemma unat_succ_less: "(i::8 word) < n \<Longrightarrow> unat (i + 1) = Suc (unat i)"
proof -
  assume less: "i < n"
  have "unat i < unat n"
    using less by (simp add: word_less_nat_alt)
  moreover have "unat n < 256"
    using unsigned_less [of n] by simp
  ultimately have "unat i + 1 < 256"
    by simp
  then show ?thesis
    by (simp add: unat_word_ariths)
qed

text \<open>
  \<open>n * sumX2 - sumX * sumX\<close> is, up to the factor \<open>n\<close>, a sum of squares of the
  deviations \<open>n * x k - sumX\<close>; it vanishes only when all \<open>x k\<close> are equal.
\<close>

lemma spread_sum:
  fixes f :: "nat \<Rightarrow> rat"
  shows "(\<Sum>k = 0..<n. (of_nat n * f k - (\<Sum>j = 0..<n. f j)) * (of_nat n * f k - (\<Sum>j = 0..<n. f j)))
       = of_nat n * (of_nat n * (\<Sum>k = 0..<n. f k * f k) - (\<Sum>j = 0..<n. f j) * (\<Sum>j = 0..<n. f j))"
proof -
  define S where "S = (\<Sum>j = 0..<n. f j)"
  define Q where "Q = (\<Sum>k = 0..<n. f k * f k)"
  have "(\<Sum>k = 0..<n. (of_nat n * f k - S) * (of_nat n * f k - S))
      = (\<Sum>k = 0..<n. of_nat n * of_nat n * (f k * f k) - 2 * of_nat n * S * f k + S * S)"
    by (intro sum.cong) (simp_all add: algebra_simps)
  also have "\<dots> = of_nat n * of_nat n * Q - 2 * of_nat n * S * S + of_nat n * (S * S)"
    by (simp add: sum.distrib sum_subtractf sum_distrib_left [symmetric] Q_def S_def)
  also have "\<dots> = of_nat n * (of_nat n * Q - S * S)"
    by (simp add: algebra_simps)
  finally show ?thesis
    by (simp add: S_def Q_def)
qed

lemma denominator_nonzero:
  fixes f :: "nat \<Rightarrow> rat"
  assumes "i < n" and "j < n" and "f i \<noteq> f j"
  shows "of_nat n * (\<Sum>k = 0..<n. f k * f k) - (\<Sum>k = 0..<n. f k) * (\<Sum>k = 0..<n. f k) \<noteq> 0"
proof
  assume zero: "of_nat n * (\<Sum>k = 0..<n. f k * f k) - (\<Sum>k = 0..<n. f k) * (\<Sum>k = 0..<n. f k) = 0"
  define S where "S = (\<Sum>k = 0..<n. f k)"
  have "(\<Sum>k = 0..<n. (of_nat n * f k - S) * (of_nat n * f k - S)) = 0"
    unfolding S_def spread_sum zero by simp
  then have all: "\<forall>k\<in>{0..<n}. (of_nat n * f k - S) * (of_nat n * f k - S) = 0"
    by (subst (asm) sum_nonneg_eq_0_iff) simp_all
  have "of_nat n * f i = S" and "of_nat n * f j = S"
    using all assms(1,2) by auto
  then have "of_nat n * f i = of_nat n * f j"
    by simp
  moreover have "n \<noteq> 0"
    using assms(1) by auto
  ultimately have "f i = f j"
    by simp
  with assms(3) show False
    by contradiction
qed

lemma noiseless_sums:
  fixes f g :: "nat \<Rightarrow> rat"
  assumes "\<forall>k<n. g k = 3 * f k + 2"
  shows "(\<Sum>k = 0..<n. g k) = 3 * (\<Sum>k = 0..<n. f k) + 2 * of_nat n"
    and "(\<Sum>k = 0..<n. f k * g k) = 3 * (\<Sum>k = 0..<n. f k * f k) + 2 * (\<Sum>k = 0..<n. f k)"
proof -
  have "(\<Sum>k = 0..<n. g k) = (\<Sum>k = 0..<n. 3 * f k + 2)"
    using assms by (intro sum.cong) simp_all
  then show "(\<Sum>k = 0..<n. g k) = 3 * (\<Sum>k = 0..<n. f k) + 2 * of_nat n"
    by (simp add: sum.distrib sum_distrib_left)
  have "(\<Sum>k = 0..<n. f k * g k) = (\<Sum>k = 0..<n. 3 * (f k * f k) + 2 * f k)"
    using assms by (intro sum.cong) (simp_all add: algebra_simps)
  then show "(\<Sum>k = 0..<n. f k * g k) = 3 * (\<Sum>k = 0..<n. f k * f k) + 2 * (\<Sum>k = 0..<n. f k)"
    by (simp add: sum.distrib sum_distrib_left)
qed

section \<open>The summation loop on finite data\<close>

lemma calculate_sums_finite:
  assumes "unat n \<le> length xs" and "unat n \<le> length ys"
  shows "unat n - unat i = k \<Longrightarrow> i \<le> n \<Longrightarrow>
    calculate_sums n i (map Fin xs) (map Fin ys) (Fin a, Fin b, Fin c, Fin e) =
      Inr (Fin (a + (\<Sum>j = unat i..<unat n. xs ! j)),
           Fin (b + (\<Sum>j = unat i..<unat n. xs ! j * xs ! j)),
           Fin (c + (\<Sum>j = unat i..<unat n. ys ! j)),
           Fin (e + (\<Sum>j = unat i..<unat n. xs ! j * ys ! j)))"
proof (induction k arbitrary: i a b c e)
  case 0
  then have "unat n \<le> unat i"
    by simp
  moreover have "unat i \<le> unat n"
    using 0 by (simp add: word_le_nat_alt)
  ultimately have "i = n"
    by (simp add: word_unat_eq_iff)
  then show ?case
    by (subst calculate_sums.simps) simp
next
  case (Suc k)
  then have lt: "unat i < unat n"
    by simp
  then have less: "i < n"
    by (simp add: word_less_nat_alt)
  have suc: "unat (i + 1) = Suc (unat i)"
    using less by (rule unat_succ_less)
  have le: "i + 1 \<le> n"
    using lt suc by (simp add: word_le_nat_alt)
  have k: "unat n - unat (i + 1) = k"
    using Suc.prems suc by simp
  have inx: "unat i < length xs" and iny: "unat i < length ys"
    using lt assms by simp_all
  show ?case
    apply (subst calculate_sums.simps)
    apply (simp add: less inx iny Suc.IH [OF k le] suc)
    using lt apply (simp add: sum.atLeast_Suc_lessThan add.assoc)
    done
qed

lemma calculate_equation_sums:
  assumes "unat (weight_cnt + 1) \<le> length xs" and "unat (weight_cnt + 1) \<le> length ys"
  shows "strain_gauge_calculate_equation weight_cnt (map Fin xs) (map Fin ys) =
     (let n = unat (weight_cnt + 1);
          sumX = (\<Sum>j = 0..<n. xs ! j);
          sumX2 = (\<Sum>j = 0..<n. xs ! j * xs ! j);
          sumY = (\<Sum>j = 0..<n. ys ! j);
          sumXY = (\<Sum>j = 0..<n. xs ! j * ys ! j);
          m = fdiv (Fin (of_nat n * sumXY - sumX * sumY)) (Fin (of_nat n * sumX2 - sumX * sumX))
      in Inr (m, fdiv (fsub (Fin sumY) (fmul m (Fin sumX))) (Fin (of_nat n))))"
proof -
  let ?n = "weight_cnt + 1"
  have sums: "calculate_sums ?n 0 (map Fin xs) (map Fin ys) (Fin 0, Fin 0, Fin 0, Fin 0) =
      Inr (Fin (0 + (\<Sum>j = unat (0::8 word)..<unat ?n. xs ! j)),
           Fin (0 + (\<Sum>j = unat (0::8 word)..<unat ?n. xs ! j * xs ! j)),
           Fin (0 + (\<Sum>j = unat (0::8 word)..<unat ?n. ys ! j)),
           Fin (0 + (\<Sum>j = unat (0::8 word)..<unat ?n. xs ! j * ys ! j)))"
    by (rule calculate_sums_finite [OF assms refl]) simp
  show ?thesis
    unfolding strain_gauge_calculate_equation_def Let_def sums
    by (simp add: float_of_u8_def fsub_def)
qed

section \<open>The summation loop on arbitrary data\<close>

text \<open>
  With arrays of at least \<open>n\<close> elements the loop visits the indices \<open>i\<close> to \<open>n - 1\<close> in
  order and adds each point to the four sums; no float operation is unfolded here.
\<close>

lemma calculate_sums_fold:
  assumes "unat n \<le> length x" and "unat n \<le> length y"
  shows "unat n - unat i = k \<Longrightarrow> i \<le> n \<Longrightarrow>
    calculate_sums n i x y (a, b, c, e) =
      Inr (foldl fadd a (map fst (drop (unat i) (take (unat n) (zip x y)))),
           foldl fadd b (map (\<lambda>(u, v). fmul u u) (drop (unat i) (take (unat n) (zip x y)))),
           foldl fadd c (map snd (drop (unat i) (take (unat n) (zip x y)))),
           foldl fadd e (map (\<lambda>(u, v). fmul u v) (drop (unat i) (take (unat n) (zip x y)))))"
proof (induction k arbitrary: i a b c e)
  case 0
  then have "unat n \<le> unat i"
    by simp
  moreover have "unat i \<le> unat n"
    using 0 by (simp add: word_le_nat_alt)
  ultimately have "i = n"
    by (simp add: word_unat_eq_iff)
  then show ?case
    by (subst calculate_sums.simps) simp
next
  case (Suc k)
  then have lt: "unat i < unat n"
    by simp
  then have less: "i < n"
    by (simp add: word_less_nat_alt)
  have suc: "unat (i + 1) = Suc (unat i)"
    using less by (rule unat_succ_less)
  have le: "i + 1 \<le> n"
    using lt suc by (simp add: word_le_nat_alt)
  have k: "unat n - unat (i + 1) = k"
    using Suc.prems suc by simp
  have inx: "unat i < length x" and iny: "unat i < length y"
    using lt assms by simp_all
  let ?pts = "take (unat n) (zip x y)"
  have "unat i < length ?pts"
    using lt assms by simp
  then have "drop (unat i) ?pts = ?pts ! unat i # drop (Suc (unat i)) ?pts"
    by (rule Cons_nth_drop_Suc [symmetric])
  moreover have "?pts ! unat i = (x ! unat i, y ! unat i)"
    using lt inx iny by simp
  ultimately have step: "drop (unat i) ?pts = (x ! unat i, y ! unat i) # drop (Suc (unat i)) ?pts"
    by simp
  show ?case
    apply (subst calculate_sums.simps)
    apply (simp add: less inx iny Suc.IH [OF k le] suc step)
    done
qed

lemma calculate_equation_fold:
  assumes "unat (weight_cnt + 1) \<le> length x" and "unat (weight_cnt + 1) \<le> length y"
  shows "strain_gauge_calculate_equation weight_cnt x y =
           Inr (spec_fit (take (unat (weight_cnt + 1)) (zip x y)))"
proof -
  let ?n = "weight_cnt + 1"
  let ?pts = "take (unat ?n) (zip x y)"
  have sums: "calculate_sums ?n 0 x y (Fin 0, Fin 0, Fin 0, Fin 0) =
      Inr (foldl fadd (Fin 0) (map fst (drop (unat (0::8 word)) ?pts)),
           foldl fadd (Fin 0) (map (\<lambda>(u, v). fmul u u) (drop (unat (0::8 word)) ?pts)),
           foldl fadd (Fin 0) (map snd (drop (unat (0::8 word)) ?pts)),
           foldl fadd (Fin 0) (map (\<lambda>(u, v). fmul u v) (drop (unat (0::8 word)) ?pts)))"
    by (rule calculate_sums_fold [OF assms refl]) simp
  have len: "length ?pts = unat ?n"
    using assms by simp
  show ?thesis
    unfolding strain_gauge_calculate_equation_def spec_fit_def Let_def sums len
    by (simp add: float_of_u8_def)
qed

section \<open>Data on which binary32 is exact\<close>

text \<open>
  The values the code computes on small integer data, as integers. An integer of
  magnitude at most \<open>2 ^ 24\<close> is a binary32 value, and a sum, difference or product of
  binary32 values that is again one is computed without rounding.
\<close>

lemma abs_sum_le:
  fixes f :: "nat \<Rightarrow> int"
  assumes "\<forall>k<j. \<bar>f k\<bar> \<le> int F"
  shows "\<bar>\<Sum>k = 0..<j. f k\<bar> \<le> int (j * F)"
proof -
  have "\<bar>\<Sum>k = 0..<j. f k\<bar> \<le> (\<Sum>k = 0..<j. \<bar>f k\<bar>)"
    by (rule sum_abs)
  also have "\<dots> \<le> (\<Sum>k = 0..<j. int F)"
    using assms by (intro sum_mono) simp
  also have "\<dots> = int (j * F)"
    by simp
  finally show ?thesis .
qed

lemma abs_mult_le:
  fixes u v :: int
  assumes "\<bar>u\<bar> \<le> int U" and "\<bar>v\<bar> \<le> int V"
  shows "\<bar>u * v\<bar> \<le> int (U * V)"
proof -
  have "\<bar>u\<bar> * \<bar>v\<bar> \<le> int U * int V"
    using assms by (intro mult_mono) simp_all
  then show ?thesis
    by (simp add: abs_mult)
qed

lemma noiseless_monomials:
  fixes n B :: nat
  assumes "0 < n" and "0 < B"
  shows "n * B \<le> n * n * B * (3 * B + 2)"
    and "n * (B * B) \<le> n * n * B * (3 * B + 2)"
    and "n * (3 * B + 2) \<le> n * n * B * (3 * B + 2)"
    and "n * (B * (3 * B + 2)) \<le> n * n * B * (3 * B + 2)"
    and "B * B \<le> n * n * B * (3 * B + 2)"
    and "B * (3 * B + 2) \<le> n * n * B * (3 * B + 2)"
    and "3 * B + 2 \<le> n * n * B * (3 * B + 2)"
    and "n * (n * (B * B)) \<le> n * n * B * (3 * B + 2)"
    and "(n * B) * (n * (3 * B + 2)) \<le> n * n * B * (3 * B + 2)"
    and "(n * B) * (n * B) \<le> n * n * B * (3 * B + 2)"
    and "3 * (n * B) \<le> n * n * B * (3 * B + 2)"
    and "2 * n \<le> n * n * B * (3 * B + 2)"
    and "3 * (n * (n * (B * B))) \<le> n * n * B * (3 * B + 2)"
proof -
  obtain n' B' where n: "n = Suc n'" and B: "B = Suc B'"
    using assms by (metis gr0_implies_Suc)
  show "n * B \<le> n * n * B * (3 * B + 2)"
    and "n * (B * B) \<le> n * n * B * (3 * B + 2)"
    and "n * (3 * B + 2) \<le> n * n * B * (3 * B + 2)"
    and "n * (B * (3 * B + 2)) \<le> n * n * B * (3 * B + 2)"
    and "B * B \<le> n * n * B * (3 * B + 2)"
    and "B * (3 * B + 2) \<le> n * n * B * (3 * B + 2)"
    and "3 * B + 2 \<le> n * n * B * (3 * B + 2)"
    and "n * (n * (B * B)) \<le> n * n * B * (3 * B + 2)"
    and "(n * B) * (n * (3 * B + 2)) \<le> n * n * B * (3 * B + 2)"
    and "(n * B) * (n * B) \<le> n * n * B * (3 * B + 2)"
    and "3 * (n * B) \<le> n * n * B * (3 * B + 2)"
    and "2 * n \<le> n * n * B * (3 * B + 2)"
    and "3 * (n * (n * (B * B))) \<le> n * n * B * (3 * B + 2)"
    unfolding n B by (simp_all add: algebra_simps)
qed

text \<open>
  Points \<open>(z k, 3 * z k + 2)\<close> with \<open>\<bar>z k\<bar> \<le> B\<close> and \<open>n * n * B * (3 * B + 2) \<le> 2 ^ 24\<close>:
  the four sums after \<open>j\<close> points, the products added to them, the products and the
  differences of the slope's numerator and denominator, and the two operands of the
  intercept's numerator and their difference.
\<close>

lemma noiseless_values_in_range:
  fixes z :: "nat \<Rightarrow> int"
  assumes bound: "\<forall>k<n. \<bar>z k\<bar> \<le> int B"
    and small: "n * n * B * (3 * B + 2) \<le> 2 ^ 24"
    and "j \<le> n" and "0 < n" and "0 < B"
  shows "\<bar>\<Sum>k = 0..<j. z k\<bar> \<le> 2 ^ 24"
    and "\<bar>\<Sum>k = 0..<j. z k * z k\<bar> \<le> 2 ^ 24"
    and "\<bar>\<Sum>k = 0..<j. 3 * z k + 2\<bar> \<le> 2 ^ 24"
    and "\<bar>\<Sum>k = 0..<j. z k * (3 * z k + 2)\<bar> \<le> 2 ^ 24"
    and "\<forall>k<n. \<bar>z k * z k\<bar> \<le> 2 ^ 24 \<and> \<bar>3 * z k + 2\<bar> \<le> 2 ^ 24
           \<and> \<bar>z k * (3 * z k + 2)\<bar> \<le> 2 ^ 24"
    and "\<bar>int n * (\<Sum>k = 0..<n. z k * (3 * z k + 2))\<bar> \<le> 2 ^ 24"
    and "\<bar>(\<Sum>k = 0..<n. z k) * (\<Sum>k = 0..<n. 3 * z k + 2)\<bar> \<le> 2 ^ 24"
    and "\<bar>int n * (\<Sum>k = 0..<n. z k * z k)\<bar> \<le> 2 ^ 24"
    and "\<bar>(\<Sum>k = 0..<n. z k) * (\<Sum>k = 0..<n. z k)\<bar> \<le> 2 ^ 24"
    and "\<bar>int n * (\<Sum>k = 0..<n. z k * (3 * z k + 2))
           - (\<Sum>k = 0..<n. z k) * (\<Sum>k = 0..<n. 3 * z k + 2)\<bar> \<le> 2 ^ 24"
    and "\<bar>int n * (\<Sum>k = 0..<n. z k * z k) - (\<Sum>k = 0..<n. z k) * (\<Sum>k = 0..<n. z k)\<bar>
           \<le> 2 ^ 24"
    and "\<bar>3 * (\<Sum>k = 0..<n. z k)\<bar> \<le> 2 ^ 24"
    and "\<bar>(\<Sum>k = 0..<n. 3 * z k + 2) - 3 * (\<Sum>k = 0..<n. z k)\<bar> \<le> 2 ^ 24"
proof -
  let ?T = "n * n * B * (3 * B + 2)"
  note mono = noiseless_monomials [OF \<open>0 < n\<close> \<open>0 < B\<close>]
  have top: "int ?T \<le> 2 ^ 24"
    using small by (metis of_nat_le_iff of_nat_numeral of_nat_power)
  have below: "\<And>m. m \<le> ?T \<Longrightarrow> int m \<le> 2 ^ 24"
    using top by (meson of_nat_le_iff order_trans)
  have zk: "\<forall>k<n. \<bar>z k\<bar> \<le> int B"
    by (rule bound)
  have yk: "\<forall>k<n. \<bar>3 * z k + 2\<bar> \<le> int (3 * B + 2)"
  proof (intro allI impI)
    fix k assume "k < n"
    then have "\<bar>z k\<bar> \<le> int B"
      using bound by simp
    then show "\<bar>3 * z k + 2\<bar> \<le> int (3 * B + 2)"
      by simp
  qed
  have zzk: "\<forall>k<n. \<bar>z k * z k\<bar> \<le> int (B * B)"
  proof (intro allI impI)
    fix k assume "k < n"
    then have a: "\<bar>z k\<bar> \<le> int B"
      using zk by simp
    show "\<bar>z k * z k\<bar> \<le> int (B * B)"
      using a a by (rule abs_mult_le)
  qed
  have zyk: "\<forall>k<n. \<bar>z k * (3 * z k + 2)\<bar> \<le> int (B * (3 * B + 2))"
  proof (intro allI impI)
    fix k assume "k < n"
    then have "\<bar>z k\<bar> \<le> int B" and "\<bar>3 * z k + 2\<bar> \<le> int (3 * B + 2)"
      using zk yk by simp_all
    then show "\<bar>z k * (3 * z k + 2)\<bar> \<le> int (B * (3 * B + 2))"
      by (rule abs_mult_le)
  qed
  have pre: "\<And>f F. \<forall>k<n. \<bar>f k\<bar> \<le> int F \<Longrightarrow> \<bar>\<Sum>k = 0..<j. f k\<bar> \<le> int (n * F)"
  proof -
    fix f :: "nat \<Rightarrow> int" and F
    assume "\<forall>k<n. \<bar>f k\<bar> \<le> int F"
    then have "\<forall>k<j. \<bar>f k\<bar> \<le> int F"
      using \<open>j \<le> n\<close> by simp
    then have "\<bar>\<Sum>k = 0..<j. f k\<bar> \<le> int (j * F)"
      by (rule abs_sum_le)
    also have "\<dots> \<le> int (n * F)"
      using \<open>j \<le> n\<close> by (simp only: of_nat_le_iff mult_le_mono1)
    finally show "\<bar>\<Sum>k = 0..<j. f k\<bar> \<le> int (n * F)" .
  qed
  show "\<bar>\<Sum>k = 0..<j. z k\<bar> \<le> 2 ^ 24"
    using pre [OF zk] below [OF mono(1)] by linarith
  show "\<bar>\<Sum>k = 0..<j. z k * z k\<bar> \<le> 2 ^ 24"
    using pre [OF zzk] below [OF mono(2)] by linarith
  show "\<bar>\<Sum>k = 0..<j. 3 * z k + 2\<bar> \<le> 2 ^ 24"
    using pre [OF yk] below [OF mono(3)] by linarith
  show "\<bar>\<Sum>k = 0..<j. z k * (3 * z k + 2)\<bar> \<le> 2 ^ 24"
    using pre [OF zyk] below [OF mono(4)] by linarith
  show "\<forall>k<n. \<bar>z k * z k\<bar> \<le> 2 ^ 24 \<and> \<bar>3 * z k + 2\<bar> \<le> 2 ^ 24
           \<and> \<bar>z k * (3 * z k + 2)\<bar> \<le> 2 ^ 24"
  proof (intro allI impI conjI)
    fix k assume k: "k < n"
    have "\<bar>z k * z k\<bar> \<le> int (B * B)"
      using zzk k by simp
    then show "\<bar>z k * z k\<bar> \<le> 2 ^ 24"
      using below [OF mono(5)] by linarith
    have "\<bar>3 * z k + 2\<bar> \<le> int (3 * B + 2)"
      using yk k by simp
    then show "\<bar>3 * z k + 2\<bar> \<le> 2 ^ 24"
      using below [OF mono(7)] by linarith
    have "\<bar>z k * (3 * z k + 2)\<bar> \<le> int (B * (3 * B + 2))"
      using zyk k by simp
    then show "\<bar>z k * (3 * z k + 2)\<bar> \<le> 2 ^ 24"
      using below [OF mono(6)] by linarith
  qed
  let ?SX = "\<Sum>k = 0..<n. z k"
  let ?SX2 = "\<Sum>k = 0..<n. z k * z k"
  let ?SY = "\<Sum>k = 0..<n. 3 * z k + 2"
  let ?SXY = "\<Sum>k = 0..<n. z k * (3 * z k + 2)"
  have sx: "\<bar>?SX\<bar> \<le> int (n * B)"
    using zk by (rule abs_sum_le)
  have sx2: "\<bar>?SX2\<bar> \<le> int (n * (B * B))"
    using zzk by (rule abs_sum_le)
  have sy: "\<bar>?SY\<bar> \<le> int (n * (3 * B + 2))"
    using yk by (rule abs_sum_le)
  have sxy: "\<bar>?SXY\<bar> \<le> int (n * (B * (3 * B + 2)))"
    using zyk by (rule abs_sum_le)
  have nn: "\<bar>int n\<bar> \<le> int n"
    by simp
  have n_sxy: "\<bar>int n * ?SXY\<bar> \<le> int (n * (n * (B * (3 * B + 2))))"
    using nn sxy by (rule abs_mult_le)
  have sx_sy: "\<bar>?SX * ?SY\<bar> \<le> int ((n * B) * (n * (3 * B + 2)))"
    using sx sy by (rule abs_mult_le)
  have n_sx2: "\<bar>int n * ?SX2\<bar> \<le> int (n * (n * (B * B)))"
    using nn sx2 by (rule abs_mult_le)
  have sx_sx: "\<bar>?SX * ?SX\<bar> \<le> int ((n * B) * (n * B))"
    using sx sx by (rule abs_mult_le)
  have same: "n * (n * (B * (3 * B + 2))) = ?T" "(n * B) * (n * (3 * B + 2)) = ?T"
    by (simp_all add: algebra_simps)
  show "\<bar>int n * ?SXY\<bar> \<le> 2 ^ 24"
    using n_sxy top unfolding same by linarith
  show "\<bar>?SX * ?SY\<bar> \<le> 2 ^ 24"
    using sx_sy top unfolding same by linarith
  show "\<bar>int n * ?SX2\<bar> \<le> 2 ^ 24"
    using n_sx2 below [OF mono(8)] by linarith
  show "\<bar>?SX * ?SX\<bar> \<le> 2 ^ 24"
    using sx_sx below [OF mono(10)] by linarith
  have sq: "(n * B) * (n * B) = n * (n * (B * B))"
    by (simp add: algebra_simps)
  have nonneg: "0 \<le> int n * ?SX2" "0 \<le> ?SX * ?SX"
    by (simp_all add: sum_nonneg)
  have den: "\<bar>int n * ?SX2 - ?SX * ?SX\<bar> \<le> int (n * (n * (B * B)))"
    using nonneg n_sx2 sx_sx unfolding sq by linarith
  show "\<bar>int n * ?SX2 - ?SX * ?SX\<bar> \<le> 2 ^ 24"
    using den below [OF mono(8)] by linarith
  have sy_eq: "?SY = 3 * ?SX + 2 * int n"
    by (simp add: sum.distrib sum_distrib_left)
  have sxy_eq: "?SXY = 3 * ?SX2 + 2 * ?SX"
    by (simp add: algebra_simps sum.distrib sum_distrib_left)
  have num_eq: "int n * ?SXY - ?SX * ?SY = 3 * (int n * ?SX2 - ?SX * ?SX)"
    unfolding sy_eq sxy_eq by (simp add: algebra_simps)
  have "\<bar>3 * (int n * ?SX2 - ?SX * ?SX)\<bar> \<le> int (3 * (n * (n * (B * B))))"
    using den by simp
  then show "\<bar>int n * ?SXY - ?SX * ?SY\<bar> \<le> 2 ^ 24"
    unfolding num_eq using below [OF mono(13)] by linarith
  have "\<bar>3 * ?SX\<bar> \<le> int (3 * (n * B))"
    using sx by simp
  then show "\<bar>3 * ?SX\<bar> \<le> 2 ^ 24"
    using below [OF mono(11)] by linarith
  have "?SY - 3 * ?SX = int (2 * n)"
    unfolding sy_eq by simp
  then show "\<bar>?SY - 3 * ?SX\<bar> \<le> 2 ^ 24"
    using below [OF mono(12)] by simp
qed

text \<open>
  Points \<open>(c, w k)\<close> with \<open>\<bar>c\<bar> \<le> K\<close>, \<open>\<bar>w k\<bar> \<le> K\<close> and \<open>n * n * K * K \<le> 2 ^ 24\<close>: the
  four sums after \<open>j\<close> points, the products added to them, and the products of the
  slope's numerator and denominator, whose differences are zero.
\<close>

lemma identical_values_in_range:
  fixes w :: "nat \<Rightarrow> int" and c :: int
  assumes c: "\<bar>c\<bar> \<le> int K" and bound: "\<forall>k<n. \<bar>w k\<bar> \<le> int K"
    and small: "n * n * K * K \<le> 2 ^ 24"
    and "j \<le> n" and "0 < n" and "0 < K"
  shows "\<bar>int j * c\<bar> \<le> 2 ^ 24"
    and "\<bar>int j * (c * c)\<bar> \<le> 2 ^ 24"
    and "\<bar>\<Sum>k = 0..<j. w k\<bar> \<le> 2 ^ 24"
    and "\<bar>\<Sum>k = 0..<j. c * w k\<bar> \<le> 2 ^ 24"
    and "\<forall>k<n. \<bar>c * c\<bar> \<le> 2 ^ 24 \<and> \<bar>c * w k\<bar> \<le> 2 ^ 24"
    and "\<bar>int n * (\<Sum>k = 0..<n. c * w k)\<bar> \<le> 2 ^ 24"
    and "\<bar>(int n * c) * (\<Sum>k = 0..<n. w k)\<bar> \<le> 2 ^ 24"
    and "\<bar>int n * (int n * (c * c))\<bar> \<le> 2 ^ 24"
    and "\<bar>(int n * c) * (int n * c)\<bar> \<le> 2 ^ 24"
    and "int n * (\<Sum>k = 0..<n. c * w k) - (int n * c) * (\<Sum>k = 0..<n. w k) = 0"
    and "int n * (int n * (c * c)) - (int n * c) * (int n * c) = 0"
proof -
  let ?T = "n * n * K * K"
  obtain n' K' where n: "n = Suc n'" and K: "K = Suc K'"
    using \<open>0 < n\<close> \<open>0 < K\<close> by (metis gr0_implies_Suc)
  have mono: "n * K \<le> ?T" "n * (K * K) \<le> ?T" "K * K \<le> ?T" "n * (n * (K * K)) \<le> ?T"
    "(n * K) * (n * K) \<le> ?T"
    unfolding n K by (simp_all add: algebra_simps)
  have top: "int ?T \<le> 2 ^ 24"
    using small by (metis of_nat_le_iff of_nat_numeral of_nat_power)
  have below: "\<And>m. m \<le> ?T \<Longrightarrow> int m \<le> 2 ^ 24"
    using top by (meson of_nat_le_iff order_trans)
  have jn: "\<bar>int j\<bar> \<le> int n" and nn: "\<bar>int n\<bar> \<le> int n"
    using \<open>j \<le> n\<close> by simp_all
  have cc: "\<bar>c * c\<bar> \<le> int (K * K)"
    using c c by (rule abs_mult_le)
  have cw: "\<forall>k<n. \<bar>c * w k\<bar> \<le> int (K * K)"
  proof (intro allI impI)
    fix k assume "k < n"
    then have b: "\<bar>w k\<bar> \<le> int K"
      using bound by simp
    show "\<bar>c * w k\<bar> \<le> int (K * K)"
      using c b by (rule abs_mult_le)
  qed
  have pre: "\<And>f F. \<forall>k<n. \<bar>f k\<bar> \<le> int F \<Longrightarrow> \<bar>\<Sum>k = 0..<j. f k\<bar> \<le> int (n * F)"
  proof -
    fix f :: "nat \<Rightarrow> int" and F
    assume "\<forall>k<n. \<bar>f k\<bar> \<le> int F"
    then have "\<forall>k<j. \<bar>f k\<bar> \<le> int F"
      using \<open>j \<le> n\<close> by simp
    then have "\<bar>\<Sum>k = 0..<j. f k\<bar> \<le> int (j * F)"
      by (rule abs_sum_le)
    also have "\<dots> \<le> int (n * F)"
      using \<open>j \<le> n\<close> by (simp only: of_nat_le_iff mult_le_mono1)
    finally show "\<bar>\<Sum>k = 0..<j. f k\<bar> \<le> int (n * F)" .
  qed
  have "\<bar>int j * c\<bar> \<le> int (n * K)"
    using jn c by (rule abs_mult_le)
  then show "\<bar>int j * c\<bar> \<le> 2 ^ 24"
    using below [OF mono(1)] by linarith
  have "\<bar>int j * (c * c)\<bar> \<le> int (n * (K * K))"
    using jn cc by (rule abs_mult_le)
  then show "\<bar>int j * (c * c)\<bar> \<le> 2 ^ 24"
    using below [OF mono(2)] by linarith
  show "\<bar>\<Sum>k = 0..<j. w k\<bar> \<le> 2 ^ 24"
    using pre [OF bound] below [OF mono(1)] by linarith
  show "\<bar>\<Sum>k = 0..<j. c * w k\<bar> \<le> 2 ^ 24"
    using pre [OF cw] below [OF mono(2)] by linarith
  show "\<forall>k<n. \<bar>c * c\<bar> \<le> 2 ^ 24 \<and> \<bar>c * w k\<bar> \<le> 2 ^ 24"
  proof (intro allI impI conjI)
    fix k assume k: "k < n"
    show "\<bar>c * c\<bar> \<le> 2 ^ 24"
      using cc below [OF mono(3)] by linarith
    have "\<bar>c * w k\<bar> \<le> int (K * K)"
      using cw k by simp
    then show "\<bar>c * w k\<bar> \<le> 2 ^ 24"
      using below [OF mono(3)] by linarith
  qed
  have sw: "\<bar>\<Sum>k = 0..<n. w k\<bar> \<le> int (n * K)"
    using bound by (rule abs_sum_le)
  have scw: "\<bar>\<Sum>k = 0..<n. c * w k\<bar> \<le> int (n * (K * K))"
    using cw by (rule abs_sum_le)
  have nc: "\<bar>int n * c\<bar> \<le> int (n * K)"
    using nn c by (rule abs_mult_le)
  have ncc: "\<bar>int n * (c * c)\<bar> \<le> int (n * (K * K))"
    using nn cc by (rule abs_mult_le)
  have "\<bar>int n * (\<Sum>k = 0..<n. c * w k)\<bar> \<le> int (n * (n * (K * K)))"
    using nn scw by (rule abs_mult_le)
  then show "\<bar>int n * (\<Sum>k = 0..<n. c * w k)\<bar> \<le> 2 ^ 24"
    using below [OF mono(4)] by linarith
  have "\<bar>(int n * c) * (\<Sum>k = 0..<n. w k)\<bar> \<le> int ((n * K) * (n * K))"
    using nc sw by (rule abs_mult_le)
  then show "\<bar>(int n * c) * (\<Sum>k = 0..<n. w k)\<bar> \<le> 2 ^ 24"
    using below [OF mono(5)] by linarith
  have "\<bar>int n * (int n * (c * c))\<bar> \<le> int (n * (n * (K * K)))"
    using nn ncc by (rule abs_mult_le)
  then show "\<bar>int n * (int n * (c * c))\<bar> \<le> 2 ^ 24"
    using below [OF mono(4)] by linarith
  have "\<bar>(int n * c) * (int n * c)\<bar> \<le> int ((n * K) * (n * K))"
    using nc nc by (rule abs_mult_le)
  then show "\<bar>(int n * c) * (int n * c)\<bar> \<le> 2 ^ 24"
    using below [OF mono(5)] by linarith
  show "int n * (\<Sum>k = 0..<n. c * w k) - (int n * c) * (\<Sum>k = 0..<n. w k) = 0"
    by (simp add: sum_distrib_left algebra_simps)
  show "int n * (int n * (c * c)) - (int n * c) * (int n * c) = 0"
    by (simp add: algebra_simps)
qed

section \<open>The least-squares fit\<close>

text \<open>
  Claim C1, as the code has it. The parameter \<open>weight_cnt\<close> of
  \<open>strain_gauge_calculate_equation\<close> is the number of known weights, not the number of
  points: the function fits \<open>n = weight_cnt + 1\<close> points (in \<open>uint8_t\<close> arithmetic).
  Called with weight count \<open>weight_cnt\<close> and arrays of at least \<open>n\<close> elements, it
  returns the slope and the intercept of the specification's formulas over the first
  \<open>n\<close> points, the sums taken in order and every operation a float operation. For
  integer points on the line \<open>y = 3 * x + 2\<close> whose \<open>x\<close> values are not all equal and
  have magnitude at most \<open>B\<close>, with \<open>n * n * B * (3 * B + 2) \<le> 2 ^ 24\<close>, the result is
  slope 3 and intercept 2: on such data every value the code computes is an integer of
  magnitude at most \<open>2 ^ 24\<close> (lemma \<open>noiseless_values_in_range\<close>) or one of the
  quotients 3 and 2, so binary32 computes it without rounding.
\<close>

theorem calculate_equation_least_squares:
  assumes "unat (weight_cnt + 1) \<le> length x" and "unat (weight_cnt + 1) \<le> length y"
  shows "strain_gauge_calculate_equation weight_cnt x y =
           Inr (spec_fit (take (unat (weight_cnt + 1)) (zip x y))) \<and>
         (x = map (\<lambda>z. Fin (of_int z)) zs \<and>
          y = map (\<lambda>z. Fin (of_int (3 * z + 2))) zs \<and>
          (\<forall>k < unat (weight_cnt + 1). \<bar>zs ! k\<bar> \<le> int B) \<and>
          unat (weight_cnt + 1) * unat (weight_cnt + 1) * B * (3 * B + 2) \<le> 2 ^ 24 \<and>
          (\<exists>i < unat (weight_cnt + 1). \<exists>j < unat (weight_cnt + 1). zs ! i \<noteq> zs ! j) \<longrightarrow>
          strain_gauge_calculate_equation weight_cnt x y = Inr (Fin 3, Fin 2))"
proof (intro conjI impI)
  show "strain_gauge_calculate_equation weight_cnt x y =
           Inr (spec_fit (take (unat (weight_cnt + 1)) (zip x y)))"
    using assms by (rule calculate_equation_fold)
next
  let ?n = "unat (weight_cnt + 1)"
  assume h: "x = map (\<lambda>z. Fin (of_int z)) zs \<and>
          y = map (\<lambda>z. Fin (of_int (3 * z + 2))) zs \<and>
          (\<forall>k < ?n. \<bar>zs ! k\<bar> \<le> int B) \<and>
          ?n * ?n * B * (3 * B + 2) \<le> 2 ^ 24 \<and>
          (\<exists>i < ?n. \<exists>j < ?n. zs ! i \<noteq> zs ! j)"
  define xs :: "rat list" where "xs = map of_int zs"
  define ys :: "rat list" where "ys = map (\<lambda>z. of_int (3 * z + 2)) zs"
  have x: "x = map Fin xs" and y: "y = map Fin ys"
    using h by (simp_all add: xs_def ys_def)
  have lx: "?n \<le> length xs" and ly: "?n \<le> length ys"
    using assms x y by simp_all
  have lz: "?n \<le> length zs"
    using lx by (simp add: xs_def)
  let ?sx = "\<Sum>j = 0..<?n. xs ! j"
  let ?sx2 = "\<Sum>j = 0..<?n. xs ! j * xs ! j"
  have line: "\<forall>k < ?n. ys ! k = 3 * xs ! k + 2"
    using lz by (simp add: xs_def ys_def)
  from h obtain i j where ij: "i < ?n" "j < ?n" "zs ! i \<noteq> zs ! j"
    by blast
  then have "xs ! i \<noteq> xs ! j"
    using lz by (simp add: xs_def)
  with ij have den: "of_nat ?n * ?sx2 - ?sx * ?sx \<noteq> 0" and pos: "?n \<noteq> 0"
    using denominator_nonzero [of i ?n j "\<lambda>k. xs ! k"] by auto
  have sy: "(\<Sum>j = 0..<?n. ys ! j) = 3 * ?sx + 2 * of_nat ?n"
    and sxy: "(\<Sum>j = 0..<?n. xs ! j * ys ! j) = 3 * ?sx2 + 2 * ?sx"
    using noiseless_sums [OF line] by simp_all
  define N :: rat where "N = of_nat ?n"
  define D where "D = N * ?sx2 - ?sx * ?sx"
  have num: "N * (3 * ?sx2 + 2 * ?sx) - ?sx * (3 * ?sx + 2 * N) = 3 * D"
    by (simp add: D_def algebra_simps)
  have "D \<noteq> 0"
    using den by (simp add: D_def N_def)
  then have m: "fdiv (Fin (3 * D)) (Fin D) = Fin 3"
    by simp
  have "N \<noteq> 0"
    using pos by (simp add: N_def unsigned_eq_0_iff unat_gt_0)
  then have b: "fdiv (fsub (Fin (3 * ?sx + 2 * N)) (fmul (Fin 3) (Fin ?sx))) (Fin N) = Fin 2"
    by (simp add: fsub_def)
  show "strain_gauge_calculate_equation weight_cnt x y = Inr (Fin 3, Fin 2)"
    unfolding x y calculate_equation_sums [OF lx ly] Let_def sy sxy
    unfolding N_def [symmetric] num
    unfolding D_def [symmetric] m b ..
qed

text \<open>
  The theorem at weight count 1 with the two points \<open>(0, 2)\<close> and \<open>(1, 5)\<close> of the
  line \<open>y = 3 * x + 2\<close>, and \<open>B = 1\<close>.
\<close>

theorem calculate_equation_least_squares_witness:
  "unat ((1::8 word) + 1) \<le> length [Fin 0, Fin 1] \<and>
   unat ((1::8 word) + 1) \<le> length [Fin 2, Fin 5] \<and>
   [Fin 0, Fin 1] = map (\<lambda>z. Fin (of_int z)) [0, 1] \<and>
   [Fin 2, Fin 5] = map (\<lambda>z. Fin (of_int (3 * z + 2))) [0, 1] \<and>
   \<bar>[0, 1 :: int] ! 0\<bar> \<le> int 1 \<and> \<bar>[0, 1 :: int] ! 1\<bar> \<le> int 1 \<and>
   unat ((1::8 word) + 1) * unat ((1::8 word) + 1) * 1 * (3 * 1 + 2) \<le> 2 ^ 24 \<and>
   [0, 1 :: int] ! 0 \<noteq> [0, 1] ! 1 \<and>
   spec_fit (take (unat ((1::8 word) + 1)) (zip [Fin 0, Fin 1] [Fin 2, Fin 5])) = (Fin 3, Fin 2) \<and>
   strain_gauge_calculate_equation 1 [Fin 0, Fin 1] [Fin 2, Fin 5] = Inr (Fin 3, Fin 2)"
proof -
  have two: "unat ((1::8 word) + 1) = 2"
    by simp
  have h1: "unat ((1::8 word) + 1) \<le> length [Fin 0, Fin 1]"
    and h2: "unat ((1::8 word) + 1) \<le> length [Fin 2, Fin 5]"
    by simp_all
  have x: "[Fin 0, Fin 1] = map (\<lambda>z. Fin (of_int z)) [0, 1]"
    and y: "[Fin 2, Fin 5] = map (\<lambda>z. Fin (of_int (3 * z + 2))) [0, 1]"
    by simp_all
  have bound: "\<forall>k < unat ((1::8 word) + 1). \<bar>[0, 1 :: int] ! k\<bar> \<le> int 1"
    unfolding two by (simp add: less_2_cases_iff)
  have small: "unat ((1::8 word) + 1) * unat ((1::8 word) + 1) * 1 * (3 * 1 + 2) \<le> 2 ^ 24"
    by simp
  have "(0::nat) < 2 \<and> (1::nat) < 2 \<and> [0, 1 :: int] ! 0 \<noteq> [0, 1] ! 1"
    by simp
  then have spread: "\<exists>i < unat ((1::8 word) + 1). \<exists>j < unat ((1::8 word) + 1).
      [0, 1 :: int] ! i \<noteq> [0, 1] ! j"
    unfolding two by blast
  have fit: "spec_fit (take (unat ((1::8 word) + 1)) (zip [Fin 0, Fin 1] [Fin 2, Fin 5]))
      = (Fin 3, Fin 2)"
    unfolding two by (simp add: spec_fit_def fsub_def numeral_2_eq_2)
  from calculate_equation_least_squares [OF h1 h2, of "[0, 1]" 1] x y bound small spread
  have "strain_gauge_calculate_equation 1 [Fin 0, Fin 1] [Fin 2, Fin 5] = Inr (Fin 3, Fin 2)"
    by blast
  with h1 h2 fit show ?thesis
    by simp
qed

text \<open>
  Claim C1 as stated fails: called with the number of points, 2, and arrays of two
  elements, the function reads \<open>x[2]\<close>, outside the array, where the specification's
  formula over the two points gives slope 3 and intercept 2.
\<close>

theorem calculate_equation_point_count_counterexample:
  "strain_gauge_calculate_equation 2 [Fin 0, Fin 1] [Fin 2, Fin 5] = Inl (OutOfBounds ''x'' 2) \<and>
   spec_fit [(Fin 0, Fin 2), (Fin 1, Fin 5)] = (Fin 3, Fin 2)"
proof -
  have "strain_gauge_calculate_equation 2 [Fin 0, Fin 1] [Fin 2, Fin 5] = Inl (OutOfBounds ''x'' 2)"
    by code_simp
  moreover have "spec_fit [(Fin 0, Fin 2), (Fin 1, Fin 5)] = (Fin 3, Fin 2)"
    by (simp add: spec_fit_def fsub_def)
  ultimately show ?thesis
    by simp
qed

section \<open>Degenerate and short datasets\<close>

text \<open>
  Claim C4, as the code has it. The fit has no check of the denominator and no error
  result: whatever the data, it returns a pair of coefficients. For integer data of
  magnitude at most \<open>K\<close>, with \<open>n * n * K * K \<le> 2 ^ 24\<close> for the \<open>n = weight_cnt + 1\<close>
  points, whose \<open>x\<close> values are all the same, numerator and denominator of the slope
  are both zero, the division is carried out, and the function returns NaN for the
  slope and NaN for the intercept. On such data every value before the division is an
  integer of magnitude at most \<open>2 ^ 24\<close> (lemma \<open>identical_values_in_range\<close>), so
  binary32 computes it without rounding.
\<close>

theorem identical_x_gives_nan:
  assumes "unat (weight_cnt + 1) \<le> length x" and "unat (weight_cnt + 1) \<le> length y"
  shows "(\<exists>m b. strain_gauge_calculate_equation weight_cnt x y = Inr (m, b)) \<and>
         (x = map (\<lambda>z. Fin (of_int z)) zs \<and>
          y = map (\<lambda>z. Fin (of_int z)) ws \<and>
          (\<forall>k < unat (weight_cnt + 1). zs ! k = c) \<and>
          \<bar>c\<bar> \<le> int K \<and>
          (\<forall>k < unat (weight_cnt + 1). \<bar>ws ! k\<bar> \<le> int K) \<and>
          unat (weight_cnt + 1) * unat (weight_cnt + 1) * K * K \<le> 2 ^ 24 \<longrightarrow>
          strain_gauge_calculate_equation weight_cnt x y = Inr (NaN, NaN))"
proof (intro conjI impI)
  show "\<exists>m b. strain_gauge_calculate_equation weight_cnt x y = Inr (m, b)"
    unfolding calculate_equation_fold [OF assms]
    by (cases "spec_fit (take (unat (weight_cnt + 1)) (zip x y))") simp
next
  let ?n = "unat (weight_cnt + 1)"
  assume h: "x = map (\<lambda>z. Fin (of_int z)) zs \<and>
          y = map (\<lambda>z. Fin (of_int z)) ws \<and>
          (\<forall>k < ?n. zs ! k = c) \<and>
          \<bar>c\<bar> \<le> int K \<and>
          (\<forall>k < ?n. \<bar>ws ! k\<bar> \<le> int K) \<and>
          ?n * ?n * K * K \<le> 2 ^ 24"
  define xs :: "rat list" where "xs = map of_int zs"
  define ys :: "rat list" where "ys = map of_int ws"
  have x: "x = map Fin xs" and y: "y = map Fin ys"
    using h by (simp_all add: xs_def ys_def)
  have lx: "?n \<le> length xs" and ly: "?n \<le> length ys"
    using assms x y by simp_all
  have same: "\<forall>k < ?n. xs ! k = of_int c"
    using h lx by (simp add: xs_def)
  have sx: "(\<Sum>j = 0..<?n. xs ! j) = of_nat ?n * of_int c"
    using same by simp
  have sx2: "(\<Sum>j = 0..<?n. xs ! j * xs ! j) = of_nat ?n * (of_int c * of_int c)"
    using same by simp
  have sxy: "(\<Sum>j = 0..<?n. xs ! j * ys ! j) = of_int c * (\<Sum>j = 0..<?n. ys ! j)"
    using same by (simp add: sum_distrib_left)
  show "strain_gauge_calculate_equation weight_cnt x y = Inr (NaN, NaN)"
    unfolding x y calculate_equation_sums [OF lx ly] Let_def sx sx2 sxy
    by (simp add: inf_signed_def fsub_def algebra_simps)
qed

text \<open>
  The theorem at the three points \<open>(1, 1)\<close>, \<open>(1, 2)\<close>, \<open>(1, 3)\<close>, with \<open>K = 3\<close>.
\<close>

theorem identical_x_gives_nan_witness:
  "unat ((2::8 word) + 1) \<le> length [Fin 1, Fin 1, Fin 1] \<and>
   unat ((2::8 word) + 1) \<le> length [Fin 1, Fin 2, Fin 3] \<and>
   [Fin 1, Fin 1, Fin 1] = map (\<lambda>z. Fin (of_int z)) [1, 1, 1] \<and>
   [Fin 1, Fin 2, Fin 3] = map (\<lambda>z. Fin (of_int z)) [1, 2, 3] \<and>
   [1, 1, 1 :: int] ! 0 = 1 \<and> [1, 1, 1 :: int] ! 1 = 1 \<and> [1, 1, 1 :: int] ! 2 = 1 \<and>
   \<bar>1 :: int\<bar> \<le> int 3 \<and>
   \<bar>[1, 2, 3 :: int] ! 0\<bar> \<le> int 3 \<and> \<bar>[1, 2, 3 :: int] ! 1\<bar> \<le> int 3 \<and>
   \<bar>[1, 2, 3 :: int] ! 2\<bar> \<le> int 3 \<and>
   unat ((2::8 word) + 1) * unat ((2::8 word) + 1) * 3 * 3 \<le> 2 ^ 24 \<and>
   strain_gauge_calculate_equation 2 [Fin 1, Fin 1, Fin 1] [Fin 1, Fin 2, Fin 3] = Inr (NaN, NaN)"
proof -
  have three: "unat ((2::8 word) + 1) = 3"
    by simp
  have h1: "unat ((2::8 word) + 1) \<le> length [Fin 1, Fin 1, Fin 1]"
    and h2: "unat ((2::8 word) + 1) \<le> length [Fin 1, Fin 2, Fin 3]"
    by simp_all
  have x: "[Fin 1, Fin 1, Fin 1] = map (\<lambda>z. Fin (of_int z)) [1, 1, 1]"
    and y: "[Fin 1, Fin 2, Fin 3] = map (\<lambda>z. Fin (of_int z)) [1, 2, 3]"
    by simp_all
  have same: "\<forall>k < unat ((2::8 word) + 1). [1, 1, 1 :: int] ! k = 1"
    unfolding three by (simp add: less_Suc_eq numeral_3_eq_3)
  have bound: "\<forall>k < unat ((2::8 word) + 1). \<bar>[1, 2, 3 :: int] ! k\<bar> \<le> int 3"
    unfolding three by (simp add: less_Suc_eq numeral_3_eq_3)
  have c: "\<bar>1 :: int\<bar> \<le> int 3"
    by simp
  have small: "unat ((2::8 word) + 1) * unat ((2::8 word) + 1) * 3 * 3 \<le> 2 ^ 24"
    by simp
  from identical_x_gives_nan [OF h1 h2, of "[1, 1, 1]" "[1, 2, 3]" 1 3] x y same bound c small
  have "strain_gauge_calculate_equation 2 [Fin 1, Fin 1, Fin 1] [Fin 1, Fin 2, Fin 3]
      = Inr (NaN, NaN)"
    by blast
  with h1 h2 show ?thesis
    by simp
qed

text \<open>
  Claim C4 as stated fails: for \<open>x = [1, 1, 1]\<close> the fit reports no error. It returns
  NaN for both coefficients; called with the number of points, 3, as the count it reads
  \<open>x[3]\<close>, outside the array.
\<close>

theorem identical_x_counterexample:
  "strain_gauge_calculate_equation 2 [Fin 1, Fin 1, Fin 1] [Fin 1, Fin 2, Fin 3] = Inr (NaN, NaN) \<and>
   strain_gauge_calculate_equation 3 [Fin 1, Fin 1, Fin 1] [Fin 1, Fin 2, Fin 3]
     = Inl (OutOfBounds ''x'' 3)"
proof -
  have "strain_gauge_calculate_equation 2 [Fin 1, Fin 1, Fin 1] [Fin 1, Fin 2, Fin 3]
      = Inr (NaN, NaN)"
    by code_simp
  moreover have "strain_gauge_calculate_equation 3 [Fin 1, Fin 1, Fin 1] [Fin 1, Fin 2, Fin 3]
      = Inl (OutOfBounds ''x'' 3)"
    by code_simp
  ultimately show ?thesis
    by simp
qed

text \<open>
  Claim C5, as the code has it. The fit has no check of the number of points. For a
  dataset of one point with finite values (weight count 0) it returns NaN for the slope
  and for the intercept; for weight count 255 the count \<open>n\<close> wraps to 0, no point is
  read, and the result is NaN and NaN again.
\<close>

theorem short_dataset_gives_nan:
  "strain_gauge_calculate_equation 0 (Fin a # x) (Fin b # y) = Inr (NaN, NaN) \<and>
   strain_gauge_calculate_equation 255 x' y' = Inr (NaN, NaN)"
proof
  show "strain_gauge_calculate_equation 0 (Fin a # x) (Fin b # y) = Inr (NaN, NaN)"
    apply (simp add: strain_gauge_calculate_equation_def)
    apply (subst calculate_sums.simps)
    apply simp
    apply (subst calculate_sums.simps)
    apply (simp add: float_of_u8_def fsub_def inf_signed_def)
    done
  show "strain_gauge_calculate_equation 255 x' y' = Inr (NaN, NaN)"
    apply (simp add: strain_gauge_calculate_equation_def)
    apply (subst calculate_sums.simps)
    apply (simp add: float_of_u8_def fsub_def inf_signed_def)
    done
qed

text \<open>
  Claim C5 as stated fails: the one-point dataset \<open>(1, 1)\<close> gives coefficients (both
  NaN), not an error; called with the number of points, 1, as the count the function
  reads \<open>x[1]\<close>, outside the array.
\<close>

theorem short_dataset_counterexample:
  "strain_gauge_calculate_equation 0 [Fin 1] [Fin 1] = Inr (NaN, NaN) \<and>
   strain_gauge_calculate_equation 1 [Fin 1] [Fin 1] = Inl (OutOfBounds ''x'' 1)"
proof -
  have "strain_gauge_calculate_equation 0 [Fin 1] [Fin 1] = Inr (NaN, NaN)"
    by code_simp
  moreover have "strain_gauge_calculate_equation 1 [Fin 1] [Fin 1] = Inl (OutOfBounds ''x'' 1)"
    by code_simp
  ultimately show ?thesis
    by simp
qed

section \<open>Averaging zero samples\<close>

text \<open>
  Claim C6, as the code has it. \<open>read_average\<close> has no check of its argument. Called
  with a sample count of 0 it waits for no tick, takes no sample and returns \<open>sum/times\<close>
  with \<open>sum = 0\<close> and \<open>times = 0\<close>: the division by zero is carried out and the result
  is NaN.
\<close>

theorem read_average_zero_times: "read_average d 0 ticks = Some (NaN, ticks)"
  by (simp add: read_average_def read_average_loop.simps float_of_u8_def inf_signed_def)

text \<open>
  Claim C6 as stated fails: at program start, with two ticks pending, the call returns
  NaN and reports no error.
\<close>

theorem read_average_zero_counterexample:
  "read_average startup 0 [Fin 1, Fin 2] = Some (NaN, [Fin 1, Fin 2])"
  by (simp add: read_average_def read_average_loop.simps float_of_u8_def inf_signed_def)

section \<open>Initialisation\<close>

text \<open>
  Claim C7, as the code has it. \<open>strain_gauge_init\<close> validates nothing: for every
  excitation voltage, capacity and rated output, zero and negative values included, it
  stores the three values as given and sets the tare offset to 0; the mode flags and the
  coefficients keep their values.
\<close>

theorem init_stores_unchecked:
  "VE (sg (strain_gauge_init d ve cap ro)) = ve \<and>
   RO (sg (strain_gauge_init d ve cap ro)) = ro \<and>
   capacity (sg (strain_gauge_init d ve cap ro)) = cap \<and>
   offset (sg (strain_gauge_init d ve cap ro)) = Fin 0 \<and>
   taring (strain_gauge_init d ve cap ro) = taring d \<and>
   calibrating (strain_gauge_init d ve cap ro) = calibrating d \<and>
   slope (strain_gauge_init d ve cap ro) = slope d \<and>
   intercept (strain_gauge_init d ve cap ro) = intercept d"
  by (simp add: strain_gauge_init_def)

text \<open>
  Claim C7 as stated fails: an excitation voltage of 0 is accepted and stored, and the
  conversion of a sample of 1 V then divides by \<open>VE * RO = 0\<close>, which gives infinity;
  an excitation voltage of -5 and a rated output of -2 are accepted and stored as well.
\<close>

theorem init_counterexample:
  "VE (sg (strain_gauge_init startup (Fin 0) 10 (Fin 2))) = Fin 0 \<and>
   raw_kilograms (sg (strain_gauge_init startup (Fin 0) 10 (Fin 2))) (Fin 1) = PInf \<and>
   VE (sg (strain_gauge_init startup (Fin (- 5)) 10 (Fin (- 2)))) = Fin (- 5) \<and>
   RO (sg (strain_gauge_init startup (Fin (- 5)) 10 (Fin (- 2)))) = Fin (- 2)"
  by (simp add: strain_gauge_init_def raw_kilograms_def float_of_u16_def inf_signed_def)

section \<open>Reading with given coefficients\<close>

text \<open>
  Claim C2, as the code has it. With the coefficients at their initial value, slope 0
  and intercept 0, a read outside calibration mode does not return the raw conversion:
  whenever the raw conversion is finite the line correction gives 0, and the read
  returns 0 while taring and otherwise 0 after the offset step (\<open>0 - offset\<close> for a
  positive offset, \<open>0 + offset\<close> otherwise). With a zero offset it returns 0 for every
  such sample.
\<close>

theorem default_coefficients_read:
  assumes "slope d = Fin 0" and "intercept d = Fin 0" and "\<not> calibrating d"
    and "raw_kilograms (sg d) v = Fin r"
  shows "read_kgs d v =
           (if taring d then Fin 0
            else if fgt (offset (sg d)) (Fin 0) then fsub (Fin 0) (offset (sg d))
            else fadd (Fin 0) (offset (sg d))) \<and>
         (offset (sg d) = Fin 0 \<longrightarrow> read_kgs d v = Fin 0)"
  using assms by (simp add: read_kgs_def Let_def fsub_def)

text \<open>
  The theorem for a 10 kg cell at 5 V and 2 mV/V right after initialisation, with a
  sample of 1 V, whose raw conversion is 1 kg.
\<close>

theorem default_coefficients_read_witness:
  "slope (strain_gauge_init startup (Fin 5) 10 (Fin 2)) = Fin 0 \<and>
   intercept (strain_gauge_init startup (Fin 5) 10 (Fin 2)) = Fin 0 \<and>
   \<not> calibrating (strain_gauge_init startup (Fin 5) 10 (Fin 2)) \<and>
   raw_kilograms (sg (strain_gauge_init startup (Fin 5) 10 (Fin 2))) (Fin 1) = Fin 1 \<and>
   offset (sg (strain_gauge_init startup (Fin 5) 10 (Fin 2))) = Fin 0 \<and>
   read_kgs (strain_gauge_init startup (Fin 5) 10 (Fin 2)) (Fin 1) = Fin 0"
proof -
  let ?d = "strain_gauge_init startup (Fin 5) 10 (Fin 2)"
  have s: "slope ?d = Fin 0" and i: "intercept ?d = Fin 0" and c: "\<not> calibrating ?d"
    and off: "offset (sg ?d) = Fin 0"
    by (simp_all add: strain_gauge_init_def startup_def)
  have raw: "raw_kilograms (sg ?d) (Fin 1) = Fin 1"
    by (simp add: strain_gauge_init_def raw_kilograms_def float_of_u16_def)
  from default_coefficients_read [OF s i c raw] off
  have "read_kgs ?d (Fin 1) = Fin 0"
    by blast
  with s i c raw off show ?thesis
    by simp
qed

text \<open>
  Claim C2 as stated fails: right after initialisation (coefficients 0 and 0, offset 0,
  not calibrating) a sample of 1 V reads as 0 kg, while its raw conversion is 1 kg.
\<close>

theorem default_coefficients_counterexample:
  "slope (strain_gauge_init startup (Fin 5) 10 (Fin 2)) = Fin 0 \<and>
   intercept (strain_gauge_init startup (Fin 5) 10 (Fin 2)) = Fin 0 \<and>
   \<not> calibrating (strain_gauge_init startup (Fin 5) 10 (Fin 2)) \<and>
   offset (sg (strain_gauge_init startup (Fin 5) 10 (Fin 2))) = Fin 0 \<and>
   read_kgs (strain_gauge_init startup (Fin 5) 10 (Fin 2)) (Fin 1) = Fin 0 \<and>
   raw_kilograms (sg (strain_gauge_init startup (Fin 5) 10 (Fin 2))) (Fin 1) = Fin 1"
  by (simp add: strain_gauge_init_def startup_def read_kgs_def raw_kilograms_def
      float_of_u16_def fsub_def)

text \<open>
  Claim C9. After \<open>strain_gauge_set_equation\<close> with slope 1 and intercept 0, and with
  a tare offset of 0, \<open>read_kgs\<close> returns the raw conversion for every sample: positive,
  zero or negative, through both branches of the line correction and in every mode.
\<close>

theorem identity_coefficients_read:
  "offset (sg d) = Fin 0 \<Longrightarrow>
   read_kgs (strain_gauge_set_equation d (Fin 1) (Fin 0)) v = raw_kilograms (sg d) v"
  by (simp add: read_kgs_def strain_gauge_set_equation_def Let_def
      fmul_one_left fadd_zero_right fsub_zero_right)

text \<open>
  The theorem for a 10 kg cell at 5 V and 2 mV/V with a sample of -3 V, which takes
  the branch for values that are not positive.
\<close>

theorem identity_coefficients_read_witness:
  "offset (sg (strain_gauge_init startup (Fin 5) 10 (Fin 2))) = Fin 0 \<and>
   read_kgs (strain_gauge_set_equation (strain_gauge_init startup (Fin 5) 10 (Fin 2))
       (Fin 1) (Fin 0)) (Fin (- 3)) = Fin (- 3) \<and>
   raw_kilograms (sg (strain_gauge_init startup (Fin 5) 10 (Fin 2))) (Fin (- 3)) = Fin (- 3)"
proof -
  have off: "offset (sg (strain_gauge_init startup (Fin 5) 10 (Fin 2))) = Fin 0"
    by (simp add: strain_gauge_init_def)
  have raw: "raw_kilograms (sg (strain_gauge_init startup (Fin 5) 10 (Fin 2))) (Fin (- 3))
      = Fin (- 3)"
    by (simp add: strain_gauge_init_def raw_kilograms_def float_of_u16_def)
  show ?thesis
    using identity_coefficients_read [OF off, of "Fin (- 3)"] off raw by simp
qed

section \<open>Array indices during calibration\<close>

text \<open>
  The copying loop of \<open>strain_gauge_calibrate\<close> runs \<open>i\<close> from 0 to \<open>weight_cnt\<close>
  inclusive. With \<open>y\<close> of \<open>weight_cnt + 1\<close> elements it always leaves an array: at
  \<open>known_weights[length known_weights]\<close> when the caller's array has at most
  \<open>weight_cnt\<close> elements, at \<open>y[weight_cnt + 1]\<close> otherwise.
\<close>

lemma copy_known_weights_faults:
  assumes "length y = unat weight_cnt + 1"
  shows "unat weight_cnt - unat i = k \<Longrightarrow> i \<le> weight_cnt \<Longrightarrow>
    unat i \<le> length known_weights \<Longrightarrow> length y' = length y \<Longrightarrow>
    copy_known_weights weight_cnt i known_weights y' =
      Some (Inl (if length known_weights \<le> unat weight_cnt
                 then OutOfBounds ''known_weights'' (length known_weights)
                 else OutOfBounds ''y'' (unat weight_cnt + 1)))"
proof (induction k arbitrary: i y')
  case 0
  then have "unat weight_cnt \<le> unat i"
    by simp
  moreover have "unat i \<le> unat weight_cnt"
    using 0 by (simp add: word_le_nat_alt)
  ultimately have eq: "i = weight_cnt"
    by (simp add: word_unat_eq_iff)
  show ?case
    apply (subst copy_known_weights.simps)
    using 0 assms eq by auto
next
  case (Suc k)
  then have lt: "unat i < unat weight_cnt"
    by simp
  then have less: "i < weight_cnt"
    by (simp add: word_less_nat_alt)
  have suc: "unat (i + 1) = Suc (unat i)"
    using less by (rule unat_succ_less)
  have le: "i + 1 \<le> weight_cnt"
    using lt suc by (simp add: word_le_nat_alt)
  have k: "unat weight_cnt - unat (i + 1) = k"
    using Suc.prems suc by simp
  show ?case
  proof (cases "unat i < length known_weights")
    case False
    with Suc.prems have "unat i = length known_weights"
      by simp
    then show ?thesis
      apply (subst copy_known_weights.simps)
      using lt Suc.prems by auto
  next
    case True
    then have next_le: "unat (i + 1) \<le> length known_weights"
      using suc by simp
    have len: "length (y'[unat i + 1 := known_weights ! unat i]) = length y"
      using Suc.prems by simp
    show ?thesis
      apply (subst copy_known_weights.simps)
      using True lt Suc.prems(2,4) assms Suc.IH [OF k le next_le len] by simp
  qed
qed

lemma calibrate_out_of_bounds:
  "strain_gauge_calibrate d weight_cnt known_weights ticks =
     Some (d\<lparr>calibrating := True\<rparr>,
           Inl (if length known_weights \<le> unat weight_cnt
                then OutOfBounds ''known_weights'' (length known_weights)
                else OutOfBounds ''y'' (unat weight_cnt + 1)),
           ticks)"
proof -
  let ?y = "(replicate (unat weight_cnt + 1) NaN)[0 := Fin 0]"
  have len: "length ?y = unat weight_cnt + 1"
    by simp
  have "copy_known_weights weight_cnt 0 known_weights ?y =
      Some (Inl (if length known_weights \<le> unat weight_cnt
                 then OutOfBounds ''known_weights'' (length known_weights)
                 else OutOfBounds ''y'' (unat weight_cnt + 1)))"
    by (rule copy_known_weights_faults [OF len refl]) simp_all
  then show ?thesis
    by (simp add: strain_gauge_calibrate_def Let_def)
qed

text \<open>
  The summation loop runs \<open>i\<close> from 0 to \<open>n - 1\<close> with \<open>n = weight_cnt + 1\<close>: with
  arrays shorter than \<open>n\<close> it reads \<open>x\<close> at the index that is the length of \<open>x\<close>.
\<close>

lemma calculate_sums_faults:
  assumes "length x < unat n" and "length x \<le> length y"
  shows "length x - unat i = k \<Longrightarrow> unat i \<le> length x \<Longrightarrow>
    calculate_sums n i x y acc = Inl (OutOfBounds ''x'' (length x))"
proof (induction k arbitrary: i acc)
  case 0
  then have eq: "unat i = length x"
    by simp
  then have less: "i < n"
    using assms by (simp add: word_less_nat_alt)
  obtain a b c e where acc: "acc = (a, b, c, e)"
    by (cases acc) auto
  show ?case
    unfolding acc
    apply (subst calculate_sums.simps)
    using less eq by simp
next
  case (Suc k)
  then have lt: "unat i < length x"
    by simp
  then have less: "i < n"
    using assms by (simp add: word_less_nat_alt)
  have suc: "unat (i + 1) = Suc (unat i)"
    using less by (rule unat_succ_less)
  have k: "length x - unat (i + 1) = k"
    using Suc.prems suc by simp
  have le: "unat (i + 1) \<le> length x"
    using lt suc by simp
  obtain a b c e where acc: "acc = (a, b, c, e)"
    by (cases acc) auto
  show ?case
    unfolding acc
    apply (subst calculate_sums.simps)
    using less lt assms Suc.IH [OF k le] by simp
qed

lemma calculate_equation_reads_past_count:
  assumes "length x = unat weight_cnt" and "length y = unat weight_cnt" and "weight_cnt \<noteq> 255"
  shows "strain_gauge_calculate_equation weight_cnt x y = Inl (OutOfBounds ''x'' (unat weight_cnt))"
proof -
  have "unat weight_cnt \<noteq> 255"
  proof
    assume "unat weight_cnt = 255"
    then have "word_of_nat (unat weight_cnt) = (word_of_nat 255 :: 8 word)"
      by simp
    then have "weight_cnt = 255"
      by simp
    with assms(3) show False
      by contradiction
  qed
  moreover have "unat weight_cnt < 256"
    using unsigned_less [of weight_cnt] by simp
  ultimately have "unat (weight_cnt + 1) = unat weight_cnt + 1"
    by (simp add: unat_word_ariths)
  then have lt: "length x < unat (weight_cnt + 1)"
    using assms by simp
  have le: "length x \<le> length y"
    using assms by simp
  have "calculate_sums (weight_cnt + 1) 0 x y (Fin 0, Fin 0, Fin 0, Fin 0)
      = Inl (OutOfBounds ''x'' (length x))"
    by (rule calculate_sums_faults [OF lt le refl]) simp
  then show ?thesis
    by (simp add: strain_gauge_calculate_equation_def assms)
qed

text \<open>
  Claim C10 fails on the code. Every run of \<open>strain_gauge_calibrate\<close> indexes outside an
  array in its copying loop: it reads \<open>known_weights[length known_weights]\<close> when the
  caller's array has at most \<open>weight_cnt\<close> elements (with exactly \<open>weight_cnt\<close> elements
  this is \<open>known_weights[N]\<close>), and stores to \<open>y[weight_cnt + 1]\<close> otherwise. And
  \<open>strain_gauge_calculate_equation\<close>, given a count \<open>c\<close> below 255 and arrays of \<open>c\<close>
  elements, reads \<open>x[c]\<close>.
\<close>

theorem calibration_indexing_out_of_bounds:
  "strain_gauge_calibrate d weight_cnt known_weights ticks =
     Some (d\<lparr>calibrating := True\<rparr>,
           Inl (if length known_weights \<le> unat weight_cnt
                then OutOfBounds ''known_weights'' (length known_weights)
                else OutOfBounds ''y'' (unat weight_cnt + 1)),
           ticks) \<and>
   (length x = unat c \<and> length y = unat c \<and> c \<noteq> 255 \<longrightarrow>
    strain_gauge_calculate_equation c x y = Inl (OutOfBounds ''x'' (unat c)))"
  using calibrate_out_of_bounds calculate_equation_reads_past_count by blast

text \<open>
  The theorem with one known weight of 1 kg, and with a count of 2 for two points.
\<close>

theorem calibration_indexing_out_of_bounds_witness:
  "strain_gauge_calibrate startup 1 [Fin 1] (replicate 40 (Fin 1)) =
     Some (startup\<lparr>calibrating := True\<rparr>, Inl (OutOfBounds ''known_weights'' 1),
           replicate 40 (Fin 1)) \<and>
   length [Fin 0, Fin 1] = unat (2 :: 8 word) \<and> length [Fin 2, Fin 5] = unat (2 :: 8 word) \<and>
   (2 :: 8 word) \<noteq> 255 \<and>
   strain_gauge_calculate_equation 2 [Fin 0, Fin 1] [Fin 2, Fin 5] = Inl (OutOfBounds ''x'' 2)"
  using calibration_indexing_out_of_bounds
    [of startup 1 "[Fin 1]" "replicate 40 (Fin 1)" "[Fin 0, Fin 1]" 2 "[Fin 2, Fin 5]"]
  by simp

section \<open>The mode flags\<close>

text \<open>\<open>strain_gauge_tare\<close> sets its flag and clears it again before it returns.\<close>

lemma tare_clears_taring:
  "strain_gauge_tare d ticks = Some (d', rest) \<Longrightarrow> \<not> taring d'"
  by (auto simp: strain_gauge_tare_def Let_def split: option.splits)

text \<open>
  Claim C3 fails on the code. \<open>strain_gauge_calibrate\<close> sets \<open>calibrating\<close> on entry and
  no statement of it clears the flag: whenever a run ends, the flag is set, and every
  later \<open>read_kgs\<close> returns the raw conversion, whatever coefficients
  \<open>strain_gauge_set_equation\<close> has stored.
\<close>

theorem calibrate_leaves_calibrating_set:
  assumes "strain_gauge_calibrate d weight_cnt known_weights ticks = Some (d', r, rest)"
  shows "calibrating d' \<and>
         read_kgs (strain_gauge_set_equation d' m b) v = raw_kilograms (sg d') v"
proof -
  have "d' = d\<lparr>calibrating := True\<rparr>"
    using assms
    by (auto simp: strain_gauge_calibrate_def Let_def
        split: option.splits sum.splits prod.splits)
  then show ?thesis
    by (simp add: read_kgs_def strain_gauge_set_equation_def Let_def)
qed

text \<open>
  The theorem for a 10 kg cell at 5 V and 2 mV/V, calibrated with one known weight of
  1 kg: after the run, with slope 2 and intercept 0 stored, a sample of 1 V still reads
  as its raw conversion, 1 kg.
\<close>

theorem calibrate_leaves_calibrating_set_witness:
  "strain_gauge_calibrate (strain_gauge_init startup (Fin 5) 10 (Fin 2)) 1 [Fin 1]
       (replicate 40 (Fin 1))
     = Some ((strain_gauge_init startup (Fin 5) 10 (Fin 2))\<lparr>calibrating := True\<rparr>,
             Inl (OutOfBounds ''known_weights'' 1), replicate 40 (Fin 1)) \<and>
   calibrating ((strain_gauge_init startup (Fin 5) 10 (Fin 2))\<lparr>calibrating := True\<rparr>) \<and>
   read_kgs (strain_gauge_set_equation
       ((strain_gauge_init startup (Fin 5) 10 (Fin 2))\<lparr>calibrating := True\<rparr>) (Fin 2) (Fin 0))
       (Fin 1) = Fin 1"
proof -
  let ?d = "strain_gauge_init startup (Fin 5) 10 (Fin 2)"
  have run: "strain_gauge_calibrate ?d 1 [Fin 1] (replicate 40 (Fin 1))
      = Some (?d\<lparr>calibrating := True\<rparr>, Inl (OutOfBounds ''known_weights'' 1),
              replicate 40 (Fin 1))"
    by code_simp
  have raw: "raw_kilograms (sg (?d\<lparr>calibrating := True\<rparr>)) (Fin 1) = Fin 1"
    by (simp add: strain_gauge_init_def raw_kilograms_def float_of_u16_def)
  show ?thesis
    using calibrate_leaves_calibrating_set [OF run, of "Fin 2" "Fin 0" "Fin 1"] run raw
    by simp
qed

section \<open>The offset step\<close>

text \<open>
  With identity coefficients, outside both modes and on finite values, the offset step
  of \<open>read_kgs\<close> subtracts the magnitude of the offset, whatever its sign.
\<close>

lemma offset_step_subtracts_magnitude:
  assumes "\<not> calibrating d" and "\<not> taring d" and "offset (sg d) = Fin off"
    and "raw_kilograms (sg d) v = Fin k" and "slope d = Fin 1" and "intercept d = Fin 0"
  shows "read_kgs d v = Fin (k - \<bar>off\<bar>)"
  using assms by (simp add: read_kgs_def Let_def fsub_def)

text \<open>
  Claim C8 fails on the code. For an offset that is not positive the code adds the
  offset itself, not its absolute value. A 10 kg cell at 5 V and 2 mV/V with identity
  coefficients, tared on fifteen samples of -1 V (raw conversion -1 kg), gets the
  offset -1; the same sample then reads as -2 kg, where adding the absolute value of
  the offset gives 0 kg. Tared on samples of 1 V, the same sample reads as 0 kg.
\<close>

theorem tare_negative_offset_doubles:
  "strain_gauge_tare
       (strain_gauge_set_equation (strain_gauge_init startup (Fin 5) 10 (Fin 2)) (Fin 1) (Fin 0))
       (replicate 15 (Fin (- 1)))
     = Some (\<lparr>sg = \<lparr>capacity = 10, VE = Fin 5, RO = Fin 2, offset = Fin (- 1)\<rparr>,
              taring = False, calibrating = False, slope = Fin 1, intercept = Fin 0\<rparr>, []) \<and>
   read_kgs \<lparr>sg = \<lparr>capacity = 10, VE = Fin 5, RO = Fin 2, offset = Fin (- 1)\<rparr>,
              taring = False, calibrating = False, slope = Fin 1, intercept = Fin 0\<rparr> (Fin (- 1))
     = Fin (- 2) \<and>
   strain_gauge_tare
       (strain_gauge_set_equation (strain_gauge_init startup (Fin 5) 10 (Fin 2)) (Fin 1) (Fin 0))
       (replicate 15 (Fin 1))
     = Some (\<lparr>sg = \<lparr>capacity = 10, VE = Fin 5, RO = Fin 2, offset = Fin 1\<rparr>,
              taring = False, calibrating = False, slope = Fin 1, intercept = Fin 0\<rparr>, []) \<and>
   read_kgs \<lparr>sg = \<lparr>capacity = 10, VE = Fin 5, RO = Fin 2, offset = Fin 1\<rparr>,
              taring = False, calibrating = False, slope = Fin 1, intercept = Fin 0\<rparr> (Fin 1)
     = Fin 0"
proof -
  have "strain_gauge_tare
       (strain_gauge_set_equation (strain_gauge_init startup (Fin 5) 10 (Fin 2)) (Fin 1) (Fin 0))
       (replicate 15 (Fin (- 1)))
     = Some (\<lparr>sg = \<lparr>capacity = 10, VE = Fin 5, RO = Fin 2, offset = Fin (- 1)\<rparr>,
              taring = False, calibrating = False, slope = Fin 1, intercept = Fin 0\<rparr>, [])"
    by code_simp
  moreover have "read_kgs \<lparr>sg = \<lparr>capacity = 10, VE = Fin 5, RO = Fin 2, offset = Fin (- 1)\<rparr>,
              taring = False, calibrating = False, slope = Fin 1, intercept = Fin 0\<rparr> (Fin (- 1))
     = Fin (- 2)"
    by code_simp
  moreover have "strain_gauge_tare
       (strain_gauge_set_equation (strain_gauge_init startup (Fin 5) 10 (Fin 2)) (Fin 1) (Fin 0))
       (replicate 15 (Fin 1))
     = Some (\<lparr>sg = \<lparr>capacity = 10, VE = Fin 5, RO = Fin 2, offset = Fin 1\<rparr>,
              taring = False, calibrating = False, slope = Fin 1, intercept = Fin 0\<rparr>, [])"
    by code_simp
  moreover have "read_kgs \<lparr>sg = \<lparr>capacity = 10, VE = Fin 5, RO = Fin 2, offset = Fin 1\<rparr>,
              taring = False, calibrating = False, slope = Fin 1, intercept = Fin 0\<rparr> (Fin 1)
     = Fin 0"
    by code_simp
  ultimately show ?thesis
    by simp
qed

end
